theory Spec2Isabelle
  imports Main "HOL-Library.Word"
begin

section \<open>Stack traces of the errors package (stack.go)\<close>

text \<open>
  The development embeds \<^verbatim>\<open>stack.go\<close>: the \<^verbatim>\<open>Frame\<close> accessors over the
  runtime's symbol table, the \<^verbatim>\<open>fmt.Formatter\<close> implementations of \<^verbatim>\<open>Frame\<close>
  and \<^verbatim>\<open>StackTrace\<close>, \<^verbatim>\<open>MarshalText\<close>, \<^verbatim>\<open>callers\<close>, \<^verbatim>\<open>funcname\<close> and
  \<^verbatim>\<open>ancestorOfCause\<close>.

  Go strings are byte sequences (\<open>string\<close>, a \<open>char list\<close>). The platform has 64
  bits: a \<^verbatim>\<open>uintptr\<close> is a 64-bit word, and so is an \<^verbatim>\<open>int\<close>, read as two's
  complement. Lengths, indices and line numbers are \<open>int\<close>: the code only adds or
  subtracts 1 on values between \<open>-1\<close> and a length, so they cannot overflow. The skip
  count of \<^verbatim>\<open>callers\<close> is a 64-bit word, because \<^verbatim>\<open>skip+3\<close> can wrap around. A
  run-time panic is a value: every function that indexes or slices returns
  \<open>panic + 'a\<close>.
\<close>

subsection \<open>Go values and run-time panics\<close>

type_synonym uintptr = "64 word"

type_synonym go_int = "64 word"

datatype panic = IndexOutOfRange | SliceBoundsOutOfRange

text \<open>\<^verbatim>\<open>xs[i]\<close>: panics unless \<open>0 \<le> i < len(xs)\<close>.\<close>

definition go_index :: "'a list \<Rightarrow> int \<Rightarrow> panic + 'a" where
  "go_index xs i =
     (if 0 \<le> i \<and> i < int (length xs) then Inr (xs ! nat i) else Inl IndexOutOfRange)"

text \<open>\<^verbatim>\<open>s[lo:]\<close> on a string: panics unless \<open>0 \<le> lo \<le> len(s)\<close>.\<close>

definition go_slice_from :: "'a list \<Rightarrow> int \<Rightarrow> panic + 'a list" where
  "go_slice_from s lo =
     (if 0 \<le> lo \<and> lo \<le> int (length s) then Inr (drop (nat lo) s)
      else Inl SliceBoundsOutOfRange)"

text \<open>\<^verbatim>\<open>a[lo:hi]\<close> on an array: panics unless \<open>0 \<le> lo \<le> hi \<le> len(a)\<close>.\<close>

definition go_slice :: "'a list \<Rightarrow> int \<Rightarrow> int \<Rightarrow> panic + 'a list" where
  "go_slice a lo hi =
     (if 0 \<le> lo \<and> lo \<le> hi \<and> hi \<le> int (length a)
      then Inr (take (nat hi - nat lo) (drop (nat lo) a))
      else Inl SliceBoundsOutOfRange)"

subsection \<open>The standard library functions the file calls\<close>

text \<open>
  \<^verbatim>\<open>strings.Index(s, substr)\<close>: the index of the first instance of \<^verbatim>\<open>substr\<close> in
  \<^verbatim>\<open>s\<close>, or \<open>-1\<close> if there is none.
\<close>

fun strings_Index :: "string \<Rightarrow> string \<Rightarrow> int" where
  "strings_Index [] substr = (if substr = [] then 0 else -1)"
| "strings_Index (c # cs) substr =
     (if take (length substr) (c # cs) = substr then 0
      else (let i = strings_Index cs substr in if i < 0 then -1 else i + 1))"

text \<open>
  \<^verbatim>\<open>strings.LastIndex(s, substr)\<close>: the index of the last instance of \<^verbatim>\<open>substr\<close>
  in \<^verbatim>\<open>s\<close>, or \<open>-1\<close> if there is none.
\<close>

fun strings_LastIndex :: "string \<Rightarrow> string \<Rightarrow> int" where
  "strings_LastIndex [] substr = (if substr = [] then 0 else -1)"
| "strings_LastIndex (c # cs) substr =
     (let i = strings_LastIndex cs substr in
      if 0 \<le> i then i + 1
      else if take (length substr) (c # cs) = substr then 0 else -1)"

text \<open>
  \<^verbatim>\<open>strconv.Itoa(i)\<close>: the decimal representation of \<^verbatim>\<open>i\<close>, with a leading minus
  sign for a negative number.
\<close>

definition digit :: "nat \<Rightarrow> char" where
  "digit d = ''0123456789'' ! d"

fun decimal :: "nat \<Rightarrow> string" where
  "decimal n = (if n < 10 then [digit n] else decimal (n div 10) @ [digit (n mod 10)])"

declare decimal.simps [simp del]

definition strconv_Itoa :: "int \<Rightarrow> string" where
  "strconv_Itoa i = (if i < 0 then CHR ''-'' # decimal (nat (- i)) else decimal (nat i))"

text \<open>
  \<^verbatim>\<open>path.Base(p)\<close>: the last element of a slash-separated path. Trailing slashes are
  removed first; an empty path gives \<^verbatim>\<open>"."\<close>, a path of slashes only gives \<^verbatim>\<open>"/"\<close>.
  The library function never panics.
\<close>

fun strip_trailing_slashes :: "string \<Rightarrow> string" where
  "strip_trailing_slashes [] = []"
| "strip_trailing_slashes (c # cs) =
     (case strip_trailing_slashes cs of
        [] \<Rightarrow> (if c = CHR ''/'' then [] else [c])
      | d # ds \<Rightarrow> c # d # ds)"

definition path_Base :: "string \<Rightarrow> string" where
  "path_Base p =
     (if p = [] then ''.''
      else
        (let p1 = strip_trailing_slashes p;
             i = strings_LastIndex p1 ''/'';
             p2 = (if 0 \<le> i then drop (nat (i + 1)) p1 else p1)
         in if p2 = [] then ''/'' else p2))"

subsection \<open>funcname\<close>

text \<open>
  \<^verbatim>\<open>
  func funcname(name string) string {
      i := strings.LastIndex(name, "/")
      name = name[i+1:]
      i = strings.Index(name, ".")
      return name[i+1:]
  }
  \<close>
\<close>

definition funcname :: "string \<Rightarrow> panic + string" where
  "funcname name =
     (let i = strings_LastIndex name ''/'' in
      case go_slice_from name (i + 1) of
        Inl e \<Rightarrow> Inl e
      | Inr name1 \<Rightarrow>
          (let j = strings_Index name1 ''.'' in go_slice_from name1 (j + 1)))"

subsection \<open>Frames, stacks and ancestorOfCause\<close>

text \<open>
  \<^verbatim>\<open>type Frame uintptr\<close>, \<^verbatim>\<open>type StackTrace []Frame\<close>, \<^verbatim>\<open>type stack []uintptr\<close>.
  The conversion \<^verbatim>\<open>(uintptr)(f)\<close> is \<open>uintptr_of\<close>.
\<close>

datatype Frame = Frame (uintptr_of: uintptr)

type_synonym StackTrace = "Frame list"

type_synonym stack = "uintptr list"

text \<open>
  The loop of \<^verbatim>\<open>ancestorOfCause\<close>, started at \<^verbatim>\<open>idx\<close>:
  \<^verbatim>\<open>
  for idx := 0; idx < len(*ourStack); idx++ {
      if (*ourStack)[len(*ourStack)-1] != (uintptr)(causeStack[len(causeStack)-1]) {
          return false
      }
  }
  return true
  \<close>
\<close>

function ancestor_loop :: "stack \<Rightarrow> StackTrace \<Rightarrow> nat \<Rightarrow> panic + bool" where
  "ancestor_loop ourStack causeStack idx =
     (if idx < length ourStack then
        (case go_index ourStack (int (length ourStack) - 1) of
           Inl e \<Rightarrow> Inl e
         | Inr ours \<Rightarrow>
             (case go_index causeStack (int (length causeStack) - 1) of
                Inl e \<Rightarrow> Inl e
              | Inr theirs \<Rightarrow>
                  (if ours \<noteq> uintptr_of theirs then Inr False
                   else ancestor_loop ourStack causeStack (Suc idx))))
      else Inr True)"
  by pat_completeness auto
termination
  by (relation "measure (\<lambda>(ourStack, causeStack, idx). length ourStack - idx)") auto

declare ancestor_loop.simps [simp del]

text \<open>
  \<^verbatim>\<open>ancestorOfCause(ourStack *stack, causeStack StackTrace)\<close>. The first argument is
  the stack the pointer refers to; every caller passes the result of \<^verbatim>\<open>callers\<close>,
  which is never nil.
\<close>

definition ancestorOfCause :: "stack \<Rightarrow> StackTrace \<Rightarrow> panic + bool" where
  "ancestorOfCause ourStack causeStack =
     (if length ourStack > length causeStack then Inr False
      else ancestor_loop ourStack causeStack 0)"

subsection \<open>Resolving a Frame through the symbol table\<close>

text \<open>
  \<^verbatim>\<open>runtime.FuncForPC\<close> is the runtime's symbol table: it returns a \<^verbatim>\<open>*runtime.Func\<close>
  or nil. It is a parameter of the model. A \<^verbatim>\<open>*runtime.Func\<close> answers \<^verbatim>\<open>Name()\<close> and
  \<^verbatim>\<open>FileLine(pc)\<close>. The methods \<^verbatim>\<open>pc\<close>, \<^verbatim>\<open>file\<close>, \<^verbatim>\<open>line\<close> and \<^verbatim>\<open>name\<close> of
  \<^verbatim>\<open>Frame\<close> are \<open>Frame_pc\<close>, \<open>Frame_file\<close>, \<open>Frame_line\<close> and \<open>Frame_name\<close>.
\<close>

record Func =
  Name :: string
  FileLine :: "uintptr \<Rightarrow> string \<times> int"

type_synonym symtab = "uintptr \<Rightarrow> Func option"

text \<open>\<^verbatim>\<open>func (f Frame) pc() uintptr { return uintptr(f) - 1 }\<close>\<close>

definition Frame_pc :: "Frame \<Rightarrow> uintptr" where
  "Frame_pc f = uintptr_of f - 1"

definition Frame_file :: "symtab \<Rightarrow> Frame \<Rightarrow> string" where
  "Frame_file FuncForPC f =
     (case FuncForPC (Frame_pc f) of
        None \<Rightarrow> ''unknown''
      | Some fn \<Rightarrow> fst (FileLine fn (Frame_pc f)))"

definition Frame_line :: "symtab \<Rightarrow> Frame \<Rightarrow> int" where
  "Frame_line FuncForPC f =
     (case FuncForPC (Frame_pc f) of
        None \<Rightarrow> 0
      | Some fn \<Rightarrow> snd (FileLine fn (Frame_pc f)))"

definition Frame_name :: "symtab \<Rightarrow> Frame \<Rightarrow> string" where
  "Frame_name FuncForPC f =
     (case FuncForPC (Frame_pc f) of
        None \<Rightarrow> ''unknown''
      | Some fn \<Rightarrow> Name fn)"

subsection \<open>fmt.State and Frame.Format\<close>

text \<open>
  A \<^verbatim>\<open>fmt.State\<close> is the printer's output buffer and the flags of the directive being
  printed. \<^verbatim>\<open>io.WriteString\<close> appends to the buffer; the source ignores its results.
  A verb is a byte here: every verb the source tests is ASCII.
\<close>

record fmt_State =
  written :: string
  flags :: "char list"

definition Flag :: "fmt_State \<Rightarrow> char \<Rightarrow> bool" where
  "Flag s c = (c \<in> set (flags s))"

definition WriteString :: "fmt_State \<Rightarrow> string \<Rightarrow> fmt_State" where
  "WriteString s str = s\<lparr>written := written s @ str\<rparr>"

abbreviation NL :: char where
  "NL \<equiv> CHR 0x0A"

abbreviation TAB :: char where
  "TAB \<equiv> CHR 0x09"

function Frame_Format :: "symtab \<Rightarrow> Frame \<Rightarrow> fmt_State \<Rightarrow> char \<Rightarrow> panic + fmt_State" where
  "Frame_Format FuncForPC f s verb =
     (if verb = CHR ''s'' then
        (if Flag s CHR ''+'' then
           Inr (WriteString
                  (WriteString (WriteString s (Frame_name FuncForPC f)) [NL, TAB])
                  (Frame_file FuncForPC f))
         else Inr (WriteString s (path_Base (Frame_file FuncForPC f))))
      else if verb = CHR ''d'' then
        Inr (WriteString s (strconv_Itoa (Frame_line FuncForPC f)))
      else if verb = CHR ''n'' then
        (case funcname (Frame_name FuncForPC f) of
           Inl e \<Rightarrow> Inl e
         | Inr n \<Rightarrow> Inr (WriteString s n))
      else if verb = CHR ''v'' then
        (case Frame_Format FuncForPC f s CHR ''s'' of
           Inl e \<Rightarrow> Inl e
         | Inr s1 \<Rightarrow> Frame_Format FuncForPC f (WriteString s1 '':'') CHR ''d'')
      else Inr s)"
  by pat_completeness auto
termination
  by (relation "measure (\<lambda>(FuncForPC, f, s, verb). if verb = CHR ''v'' then 1 else 0)") auto

declare Frame_Format.simps [simp del]

subsection \<open>Frame.MarshalText\<close>

text \<open>
  \<^verbatim>\<open>fmt.Sprintf("%s %s:%d", name, file, line)\<close> on two strings and an int.
\<close>

definition Sprintf_s_s_d :: "string \<Rightarrow> string \<Rightarrow> int \<Rightarrow> string" where
  "Sprintf_s_s_d a b d = a @ '' '' @ b @ '':'' @ strconv_Itoa d"

datatype error = Error string

text \<open>
  \<^verbatim>\<open>
  func (f Frame) MarshalText() ([]byte, error) {
      name := f.name()
      if name == "unknown" {
          return []byte(name), nil
      }
      return []byte(fmt.Sprintf("%s %s:%d", name, f.file(), f.line())), nil
  }
  \<close>
\<close>

definition MarshalText :: "symtab \<Rightarrow> Frame \<Rightarrow> string \<times> error option" where
  "MarshalText FuncForPC f =
     (let name = Frame_name FuncForPC f in
      if name = ''unknown'' then (name, None)
      else (Sprintf_s_s_d name (Frame_file FuncForPC f) (Frame_line FuncForPC f), None))"

subsection \<open>StackTrace.Format and formatSlice\<close>

text \<open>
  The loop of \<^verbatim>\<open>formatSlice\<close>, at index \<^verbatim>\<open>i\<close> of the range:
  \<^verbatim>\<open>
  for i, f := range st {
      if i > 0 { io.WriteString(s, " ") }
      f.Format(s, verb)
  }
  \<close>
\<close>

fun formatSlice_loop ::
  "symtab \<Rightarrow> fmt_State \<Rightarrow> char \<Rightarrow> nat \<Rightarrow> StackTrace \<Rightarrow> panic + fmt_State" where
  "formatSlice_loop FuncForPC s verb i [] = Inr s"
| "formatSlice_loop FuncForPC s verb i (f # fs) =
     (let s1 = (if i > 0 then WriteString s '' '' else s) in
      case Frame_Format FuncForPC f s1 verb of
        Inl e \<Rightarrow> Inl e
      | Inr s2 \<Rightarrow> formatSlice_loop FuncForPC s2 verb (Suc i) fs)"

definition formatSlice :: "symtab \<Rightarrow> StackTrace \<Rightarrow> fmt_State \<Rightarrow> char \<Rightarrow> panic + fmt_State" where
  "formatSlice FuncForPC st s verb =
     (case formatSlice_loop FuncForPC (WriteString s ''['') verb 0 st of
        Inl e \<Rightarrow> Inl e
      | Inr s1 \<Rightarrow> Inr (WriteString s1 '']''))"

text \<open>
  The loop of the \<^verbatim>\<open>%+v\<close> case:
  \<^verbatim>\<open>
  for _, f := range st {
      io.WriteString(s, "\n")
      f.Format(s, verb)
  }
  \<close>
\<close>

fun format_plus_loop ::
  "symtab \<Rightarrow> fmt_State \<Rightarrow> char \<Rightarrow> StackTrace \<Rightarrow> panic + fmt_State" where
  "format_plus_loop FuncForPC s verb [] = Inr s"
| "format_plus_loop FuncForPC s verb (f # fs) =
     (case Frame_Format FuncForPC f (WriteString s [NL]) verb of
        Inl e \<Rightarrow> Inl e
      | Inr s1 \<Rightarrow> format_plus_loop FuncForPC s1 verb fs)"

text \<open>
  \<^verbatim>\<open>StackTrace.Format\<close>. The \<^verbatim>\<open>%#v\<close> case hands the slice to
  \<^verbatim>\<open>fmt.Fprintf(s, "%#v", []Frame(st))\<close>, the library's Go-syntax printer, which is
  the parameter \<open>Fprintf_sharp_v\<close>.
\<close>

definition StackTrace_Format ::
  "symtab \<Rightarrow> (fmt_State \<Rightarrow> Frame list \<Rightarrow> panic + fmt_State) \<Rightarrow>
   StackTrace \<Rightarrow> fmt_State \<Rightarrow> char \<Rightarrow> panic + fmt_State" where
  "StackTrace_Format FuncForPC Fprintf_sharp_v st s verb =
     (if verb = CHR ''v'' then
        (if Flag s CHR ''+'' then format_plus_loop FuncForPC s verb st
         else if Flag s CHR ''#'' then Fprintf_sharp_v s st
         else formatSlice FuncForPC st s verb)
      else if verb = CHR ''s'' then formatSlice FuncForPC st s verb
      else Inr s)"

text \<open>
  What \<^verbatim>\<open>fmt.Sprintf\<close> does with one directive on a value that implements
  \<^verbatim>\<open>fmt.Formatter\<close>: it calls \<^verbatim>\<open>Format\<close> on a printer with an empty buffer and the
  directive's flags, and returns the buffer.
\<close>

definition Sprint ::
  "(fmt_State \<Rightarrow> char \<Rightarrow> panic + fmt_State) \<Rightarrow> char list \<Rightarrow> char \<Rightarrow> panic + string" where
  "Sprint Format fl verb =
     (case Format \<lparr>written = [], flags = fl\<rparr> verb of
        Inl e \<Rightarrow> Inl e
      | Inr s \<Rightarrow> Inr (written s))"

subsection \<open>callers\<close>

text \<open>
  \<^verbatim>\<open>runtime.Callers(skip, pc)\<close> fills \<^verbatim>\<open>pc\<close> with the return program counters of
  the calling goroutine's stack and returns the number of entries written; \<^verbatim>\<open>skip\<close>
  frames are skipped first, 0 identifying the frame of \<^verbatim>\<open>Callers\<close> itself. The
  goroutine's stack is \<open>chain\<close>, innermost frame first. The runtime counts \<^verbatim>\<open>skip\<close>
  down only while it is positive, so a negative \<^verbatim>\<open>skip\<close> skips nothing.
\<close>

definition runtime_Callers :: "uintptr list \<Rightarrow> go_int \<Rightarrow> uintptr list \<Rightarrow> int \<times> uintptr list" where
  "runtime_Callers chain skip pcbuf =
     (let live = drop (nat (sint skip)) chain;
          n = min (length pcbuf) (length live)
      in (int n, take n live @ drop n pcbuf))"

definition depth :: nat where
  "depth = 32"

text \<open>
  \<^verbatim>\<open>
  func callers(skip int) *stack {
      const depth = 32
      var pcs [depth]uintptr
      n := runtime.Callers(skip+3, pcs[:])
      var st stack = pcs[0:n]
      return &st
  }
  \<close>
\<close>

definition callers :: "uintptr list \<Rightarrow> go_int \<Rightarrow> panic + stack" where
  "callers chain skip =
     (let pcs = replicate depth (0 :: uintptr);
          (n, pcs1) = runtime_Callers chain (skip + 3) pcs
      in go_slice pcs1 0 n)"

subsection \<open>Notions the properties are stated with\<close>

text \<open>
  The text after the last occurrence of a separator (the whole text if there is none),
  and the text after the first occurrence (the whole text if there is none).
\<close>

definition after_last :: "char \<Rightarrow> string \<Rightarrow> string" where
  "after_last c s = rev (takeWhile (\<lambda>x. x \<noteq> c) (rev s))"

definition after_first :: "char \<Rightarrow> string \<Rightarrow> string" where
  "after_first c s = (if c \<in> set s then tl (dropWhile (\<lambda>x. x \<noteq> c) s) else s)"

text \<open>
  Positional tail comparison, as the matching rule is worded: the element \<open>k\<close> places
  before the end of the candidate equals the element \<open>k\<close> places before the end of the
  cause, for every \<open>k\<close> below the candidate's length.
\<close>

definition tail_match :: "stack \<Rightarrow> StackTrace \<Rightarrow> bool" where
  "tail_match candidate cause =
     list_all
       (\<lambda>k. candidate ! (length candidate - 1 - k) = uintptr_of (cause ! (length cause - 1 - k)))
       [0..<length candidate]"

text \<open>Texts joined with a single space between neighbours.\<close>

fun space_separated :: "string list \<Rightarrow> string" where
  "space_separated [] = []"
| "space_separated [x] = x"
| "space_separated (x # y # ys) = x @ '' '' @ space_separated (y # ys)"

text \<open>
  Two symbol tables for concrete runs. The first knows the program counters 0 and 1 only;
  the second resolves every program counter to a function whose name is \<^verbatim>\<open>unknown\<close>.
\<close>

definition example_symtab :: symtab where
  "example_symtab p =
     (if p = 0 then
        Some \<lparr>Name = ''example.com/m/pkg.A'', FileLine = (\<lambda>_. (''/src/pkg/a.go'', 1))\<rparr>
      else if p = 1 then
        Some \<lparr>Name = ''example.com/m/pkg.(*T).B'', FileLine = (\<lambda>_. (''/src/pkg/b.go'', 2))\<rparr>
      else None)"

definition unknown_symtab :: symtab where
  "unknown_symtab p = Some \<lparr>Name = ''unknown'', FileLine = (\<lambda>_. (''/src/asm.s'', 7))\<rparr>"

section \<open>Properties\<close>

subsection \<open>ancestorOfCause\<close>

lemma go_index_last: "xs \<noteq> [] \<Longrightarrow> go_index xs (int (length xs) - 1) = Inr (last xs)"
  by (simp add: go_index_def last_conv_nth nat_diff_distrib')

text \<open>
  The loop never panics when the length check has passed, and its result depends on the
  two last elements only.
\<close>

lemma ancestor_loop_eq:
  "length ourStack \<le> length causeStack \<Longrightarrow>
   ancestor_loop ourStack causeStack idx =
     Inr (length ourStack \<le> idx \<or> last ourStack = uintptr_of (last causeStack))"
proof (induction ourStack causeStack idx rule: ancestor_loop.induct)
  case (1 ourStack causeStack idx)
  show ?case
  proof (cases "idx < length ourStack")
    case False
    then show ?thesis
      by (subst ancestor_loop.simps) simp
  next
    case True
    with "1.prems" have ne: "ourStack \<noteq> []" "causeStack \<noteq> []"
      by auto
    show ?thesis
    proof (cases "last ourStack = uintptr_of (last causeStack)")
      case False
      with True ne show ?thesis
        by (subst ancestor_loop.simps) (simp add: go_index_last)
    next
      case same: True
      have "ancestor_loop ourStack causeStack idx = ancestor_loop ourStack causeStack (Suc idx)"
        using True ne same by (subst ancestor_loop.simps) (simp add: go_index_last)
      also have "\<dots> =
          Inr (length ourStack \<le> Suc idx \<or> last ourStack = uintptr_of (last causeStack))"
        using "1.IH" [OF True go_index_last [OF ne(1)] go_index_last [OF ne(2)]] same "1.prems"
        by simp
      finally show ?thesis using same by simp
    qed
  qed
qed

lemma ancestorOfCause_eq:
  "ancestorOfCause ourStack causeStack =
     Inr (length ourStack \<le> length causeStack \<and>
          (ourStack = [] \<or> last ourStack = uintptr_of (last causeStack)))"
  by (simp add: ancestorOfCause_def ancestor_loop_eq not_less)

lemma ancestorOfCause_same_last:
  assumes "length ourStack' = length ourStack" and "length causeStack' = length causeStack"
    and "last ourStack' = last ourStack" and "last causeStack' = last causeStack"
  shows "ancestorOfCause ourStack' causeStack' = ancestorOfCause ourStack causeStack"
  using assms by (auto simp: ancestorOfCause_eq)

text \<open>
  C1. The matching rule: for a candidate no longer than the cause, the result is true
  exactly when every tail-aligned pair of elements is equal, a single mismatch giving
  false. The code does not implement it. The loop reads the last element of each
  sequence at every iteration and never uses its index, so a mismatch before the last
  position goes unnoticed: with the cause \<open>[1, 2, 3, 4, 5]\<close>, the candidate \<open>[3, 4, 5]\<close>
  matches, and the candidate \<open>[3, 9, 5]\<close>, which differs from it at one compared
  position, is accepted too.
\<close>

theorem ancestorOfCause_misses_inner_mismatch:
  "length [3, 9, 5 :: uintptr] \<le> length (map Frame [1, 2, 3, 4, 5]) \<and>
   tail_match [3, 4, 5] (map Frame [1, 2, 3, 4, 5]) \<and>
   ancestorOfCause [3, 4, 5] (map Frame [1, 2, 3, 4, 5]) = Inr True \<and>
   \<not> tail_match [3, 9, 5] (map Frame [1, 2, 3, 4, 5]) \<and>
   ancestorOfCause [3, 9, 5] (map Frame [1, 2, 3, 4, 5]) = Inr True"
  by (simp add: ancestorOfCause_eq tail_match_def upt_rec)

text \<open>
  C2. For all inputs, \<open>ancestorOfCause\<close> returns (without a panic) the truth value of:
  the candidate is no longer than the cause, and it is empty or its last element equals,
  as an address, the last element of the cause. No other element is read.
\<close>

theorem ancestorOfCause_last_only:
  "ancestorOfCause ourStack causeStack =
     Inr (length ourStack \<le> length causeStack \<and>
          (ourStack = [] \<or> last ourStack = uintptr_of (last causeStack)))"
  by (simp add: ancestorOfCause_def ancestor_loop_eq not_less)

text \<open>
  C3. A candidate longer than the cause is never an ancestor, whatever the two sequences
  hold.
\<close>

theorem ancestorOfCause_longer:
  "length candidate > length cause \<Longrightarrow> ancestorOfCause candidate cause = Inr False"
  by (simp add: ancestorOfCause_def)

theorem ancestorOfCause_longer_witness:
  "length [7, 8 :: uintptr] > length [Frame 8] \<and> ancestorOfCause [7, 8] [Frame 8] = Inr False"
  using ancestorOfCause_longer [of "[Frame 8]" "[7, 8]"] by simp

text \<open>
  C4. The empty candidate is an ancestor of every cause: the loop body does not run.
\<close>

theorem ancestorOfCause_empty: "ancestorOfCause [] cause = Inr True"
  by (simp add: ancestorOfCause_def ancestor_loop_eq)

subsection \<open>funcname\<close>

text \<open>The two searches, on a one-byte separator.\<close>

lemma strings_Index_char:
  "strings_Index s [c] =
     (if c \<in> set s then int (length (takeWhile (\<lambda>x. x \<noteq> c) s)) else -1)"
  by (induction s) (auto simp: Let_def)

lemma length_takeWhile_lt:
  "c \<in> set ys \<Longrightarrow> length (takeWhile (\<lambda>x. x \<noteq> c) ys) < length ys"
  by (induction ys) auto

lemma strings_LastIndex_char:
  "strings_LastIndex s [c] =
     (if c \<in> set s then int (length s) - 1 - int (length (takeWhile (\<lambda>x. x \<noteq> c) (rev s)))
      else -1)"
proof (induction s)
  case Nil
  show ?case by simp
next
  case (Cons x xs)
  show ?case
  proof (cases "c \<in> set xs")
    case True
    then have "takeWhile (\<lambda>x. x \<noteq> c) (rev xs @ [x]) = takeWhile (\<lambda>x. x \<noteq> c) (rev xs)"
      by (intro takeWhile_append1 [where x = c]) auto
    moreover have "length (takeWhile (\<lambda>x. x \<noteq> c) (rev xs)) < length xs"
      using length_takeWhile_lt [of c "rev xs"] True by simp
    ultimately show ?thesis
      using True Cons.IH by (simp add: Let_def)
  next
    case False
    then have "takeWhile (\<lambda>x. x \<noteq> c) (rev xs @ [x]) = rev xs @ takeWhile (\<lambda>x. x \<noteq> c) [x]"
      by (intro takeWhile_append2) auto
    then show ?thesis
      using False Cons.IH by (auto simp: Let_def)
  qed
qed

text \<open>Both slices of \<open>funcname\<close> are in range: the function never panics.\<close>

lemma slice_after_last:
  "go_slice_from s (strings_LastIndex s [c] + 1) = Inr (after_last c s)"
proof (cases "c \<in> set s")
  case False
  then have "takeWhile (\<lambda>x. x \<noteq> c) (rev s) = rev s"
    by (intro takeWhile_eq_all_conv [THEN iffD2]) auto
  then have "after_last c s = s"
    unfolding after_last_def by (simp only: rev_rev_ident)
  with False show ?thesis
    by (simp add: strings_LastIndex_char go_slice_from_def)
next
  case True
  define k where "k = length (takeWhile (\<lambda>x. x \<noteq> c) (rev s))"
  have k: "k \<le> length s"
    unfolding k_def using length_takeWhile_le [of "\<lambda>x. x \<noteq> c" "rev s"] by simp
  have "takeWhile (\<lambda>x. x \<noteq> c) (rev s) = take k (rev s)"
    unfolding k_def by (rule takeWhile_eq_take)
  then have "after_last c s = drop (length s - k) s"
    by (simp add: after_last_def rev_take)
  moreover have "strings_LastIndex s [c] + 1 = int (length s - k)"
    using True k by (simp add: strings_LastIndex_char k_def [symmetric])
  ultimately show ?thesis
    by (simp add: go_slice_from_def)
qed

lemma slice_after_first:
  "go_slice_from s (strings_Index s [c] + 1) = Inr (after_first c s)"
proof (cases "c \<in> set s")
  case False
  then show ?thesis
    by (simp add: strings_Index_char go_slice_from_def after_first_def)
next
  case True
  define k where "k = length (takeWhile (\<lambda>x. x \<noteq> c) s)"
  have "k < length s"
    unfolding k_def using True by (rule length_takeWhile_lt)
  moreover have "tl (dropWhile (\<lambda>x. x \<noteq> c) s) = drop (Suc k) s"
    unfolding k_def by (simp add: dropWhile_eq_drop drop_Suc tl_drop)
  moreover have "strings_Index s [c] + 1 = int (Suc k)"
    using True by (simp add: strings_Index_char k_def)
  ultimately show ?thesis
    using True by (simp add: go_slice_from_def after_first_def del: of_nat_Suc)
qed

lemma funcname_eq:
  "funcname name = Inr (after_first CHR ''.'' (after_last CHR ''/'' name))"
  by (simp add: funcname_def slice_after_last slice_after_first)

lemma after_last_append:
  assumes "dir = [] \<or> last dir = c" and "c \<notin> set base"
  shows "after_last c (dir @ base) = base"
proof -
  have "takeWhile (\<lambda>x. x \<noteq> c) (rev base @ rev dir) =
      rev base @ takeWhile (\<lambda>x. x \<noteq> c) (rev dir)"
    using assms(2) by (intro takeWhile_append2) auto
  moreover have "takeWhile (\<lambda>x. x \<noteq> c) (rev dir) = []"
    using assms(1) by (cases dir rule: rev_cases) auto
  ultimately show ?thesis
    by (simp add: after_last_def)
qed

lemma after_first_append:
  assumes "c \<notin> set pkg"
  shows "after_first c (pkg @ c # rest) = rest"
proof -
  have "dropWhile (\<lambda>x. x \<noteq> c) (pkg @ c # rest) = c # rest"
    using assms by (induction pkg) auto
  then show ?thesis
    by (simp add: after_first_def)
qed

text \<open>Every name splits as the theorem below takes it.\<close>

lemma name_splits:
  "\<exists>dir base. name = dir @ base \<and> (dir = [] \<or> last dir = c) \<and> c \<notin> set base"
proof -
  let ?P = "\<lambda>x. x \<noteq> c"
  let ?dir = "rev (dropWhile ?P (rev name))"
  let ?base = "rev (takeWhile ?P (rev name))"
  have "?dir @ ?base = rev (takeWhile ?P (rev name) @ dropWhile ?P (rev name))"
    by (simp only: rev_append)
  then have "name = ?dir @ ?base"
    by simp
  moreover have "?dir = [] \<or> last ?dir = c"
    using hd_dropWhile [of ?P "rev name"] by (auto simp: last_rev)
  moreover have "c \<notin> set ?base"
    by (auto dest: set_takeWhileD)
  ultimately show ?thesis
    by blast
qed

text \<open>
  C5. \<open>funcname\<close> strips everything up to and including the last \<^verbatim>\<open>/\<close>, then
  everything up to and including the first remaining \<^verbatim>\<open>.\<close>. A name is \<open>dir @ base\<close>
  where \<open>dir\<close> is empty or ends with \<^verbatim>\<open>/\<close> and \<open>base\<close> has no \<^verbatim>\<open>/\<close>. If \<open>base\<close> is
  \<open>pkg\<close>, a dot and \<open>rest\<close>, with no dot in \<open>pkg\<close>, the result is \<open>rest\<close>; if \<open>base\<close> has
  no dot, the result is \<open>base\<close>, the path-stripped name unchanged. In particular
  \<^verbatim>\<open>a/b/pkg.Type.Method\<close> gives \<^verbatim>\<open>Type.Method\<close> and \<^verbatim>\<open>pkg.Func\<close> gives \<^verbatim>\<open>Func\<close>. The
  function never panics.
\<close>

theorem funcname_strips:
  assumes "dir = [] \<or> last dir = CHR ''/''" and "CHR ''/'' \<notin> set base"
  shows "(CHR ''.'' \<notin> set pkg \<and> base = pkg @ ''.'' @ rest \<longrightarrow> funcname (dir @ base) = Inr rest) \<and>
         (CHR ''.'' \<notin> set base \<longrightarrow> funcname (dir @ base) = Inr base) \<and>
         funcname ''a/b/pkg.Type.Method'' = Inr ''Type.Method'' \<and>
         funcname ''pkg.Func'' = Inr ''Func''"
proof -
  have "funcname (dir @ base) = Inr (after_first CHR ''.'' base)"
    using assms by (simp add: funcname_eq after_last_append)
  moreover have "funcname ''a/b/pkg.Type.Method'' = Inr ''Type.Method''"
    by (simp add: funcname_def go_slice_from_def)
  moreover have "funcname ''pkg.Func'' = Inr ''Func''"
    by (simp add: funcname_def go_slice_from_def)
  ultimately show ?thesis
    by (auto simp: after_first_append) (simp add: after_first_def)
qed

theorem funcname_strips_witness:
  "funcname (''a/b/'' @ ''pkg.Type.Method'') = Inr ''Type.Method'' \<and>
   funcname (''a/b/'' @ ''NoDot'') = Inr ''NoDot'' \<and>
   funcname ([] @ ''main'') = Inr ''main''"
  using funcname_strips [of "''a/b/''" "''pkg.Type.Method''" "''pkg''" "''Type.Method''"]
    funcname_strips [of "''a/b/''" "''NoDot''"]
    funcname_strips [of "[]" "''main''"]
  by simp

subsection \<open>Formatting\<close>

lemma WriteString_WriteString [simp]:
  "WriteString (WriteString s a) b = WriteString s (a @ b)"
  by (simp add: WriteString_def)

lemma WriteString_Nil [simp]: "WriteString s [] = s"
  by (simp add: WriteString_def)

lemma Flag_WriteString [simp]: "Flag (WriteString s a) c = Flag s c"
  by (simp add: Flag_def WriteString_def)

lemma Frame_Format_s:
  "Frame_Format FuncForPC f s CHR ''s'' =
     Inr (WriteString s
            (if Flag s CHR ''+'' then Frame_name FuncForPC f @ [NL, TAB] @ Frame_file FuncForPC f
             else path_Base (Frame_file FuncForPC f)))"
  by (subst Frame_Format.simps) simp

lemma Frame_Format_d:
  "Frame_Format FuncForPC f s CHR ''d'' =
     Inr (WriteString s (strconv_Itoa (Frame_line FuncForPC f)))"
  by (subst Frame_Format.simps) simp

lemma Frame_Format_v:
  "Frame_Format FuncForPC f s CHR ''v'' =
     Inr (WriteString s
            ((if Flag s CHR ''+'' then Frame_name FuncForPC f @ [NL, TAB] @ Frame_file FuncForPC f
              else path_Base (Frame_file FuncForPC f))
             @ '':'' @ strconv_Itoa (Frame_line FuncForPC f)))"
  by (subst Frame_Format.simps) (simp add: Frame_Format_s Frame_Format_d)

lemma space_separated_Cons:
  "space_separated (x # xs) = x @ concat (map (\<lambda>y. CHR '' '' # y) xs)"
  by (induction xs arbitrary: x) auto

lemma formatSlice_loop_v:
  assumes "\<not> Flag s CHR ''+''"
  shows "formatSlice_loop FuncForPC s CHR ''v'' i st =
     Inr (WriteString s
            (let rs = map (\<lambda>f. path_Base (Frame_file FuncForPC f) @ '':'' @
                              strconv_Itoa (Frame_line FuncForPC f)) st
             in if i > 0 then concat (map (\<lambda>y. CHR '' '' # y) rs) else space_separated rs))"
  using assms
proof (induction st arbitrary: s i)
  case Nil
  show ?case by simp
next
  case (Cons f fs)
  show ?case
    using Cons.prems
    by (simp add: Frame_Format_v Cons.IH Let_def space_separated_Cons)
qed

lemma formatSlice_v:
  assumes "\<not> Flag s CHR ''+''"
  shows "formatSlice FuncForPC st s CHR ''v'' =
     Inr (WriteString s
            (''['' @ space_separated
                       (map (\<lambda>f. path_Base (Frame_file FuncForPC f) @ '':'' @
                              strconv_Itoa (Frame_line FuncForPC f)) st) @ '']''))"
  using assms by (simp add: formatSlice_def formatSlice_loop_v)

lemma format_plus_loop_v:
  assumes "Flag s CHR ''+''"
  shows "format_plus_loop FuncForPC s CHR ''v'' st =
     Inr (WriteString s
            (concat (map (\<lambda>f. [NL] @ Frame_name FuncForPC f @ [NL, TAB] @ Frame_file FuncForPC f @
                              '':'' @ strconv_Itoa (Frame_line FuncForPC f)) st)))"
  using assms
proof (induction st arbitrary: s)
  case Nil
  show ?case by simp
next
  case (Cons f fs)
  show ?case
    using Cons.prems by (simp add: Frame_Format_v Cons.IH)
qed

text \<open>The two example frames, resolved.\<close>

lemma example_symtab_Frame_1:
  "Frame_file example_symtab (Frame 1) = ''/src/pkg/a.go''"
  "Frame_line example_symtab (Frame 1) = 1"
  "Frame_name example_symtab (Frame 1) = ''example.com/m/pkg.A''"
  by (simp_all add: Frame_file_def Frame_line_def Frame_name_def example_symtab_def Frame_pc_def)

lemma example_symtab_Frame_2:
  "Frame_file example_symtab (Frame 2) = ''/src/pkg/b.go''"
  "Frame_line example_symtab (Frame 2) = 2"
  "Frame_name example_symtab (Frame 2) = ''example.com/m/pkg.(*T).B''"
  by (simp_all add: Frame_file_def Frame_line_def Frame_name_def example_symtab_def Frame_pc_def)

lemma path_Base_examples:
  "path_Base ''/src/pkg/a.go'' = ''a.go''"
  "path_Base ''/src/pkg/b.go'' = ''b.go''"
  by (simp_all add: path_Base_def)

lemma strconv_Itoa_examples:
  "strconv_Itoa 0 = ''0''"
  "strconv_Itoa 1 = ''1''"
  "strconv_Itoa 2 = ''2''"
  "strconv_Itoa 7 = ''7''"
  by (simp_all add: strconv_Itoa_def decimal.simps digit_def)

text \<open>
  C8. Printed with \<^verbatim>\<open>%v\<close> and neither the \<^verbatim>\<open>+\<close> nor the \<^verbatim>\<open>#\<close> flag, a StackTrace is
  an opening bracket, its frames in order separated by single spaces, and a closing
  bracket, each frame being the base name of its file, a colon and its line. Printing
  does not fail. Two frames resolving to \<^verbatim>\<open>a.go:1\<close> and \<^verbatim>\<open>b.go:2\<close> print as
  \<^verbatim>\<open>[a.go:1 b.go:2]\<close>.
\<close>

theorem StackTrace_Format_compact:
  assumes "CHR ''+'' \<notin> set fl" and "CHR ''#'' \<notin> set fl"
  shows "Sprint (StackTrace_Format FuncForPC Fprintf_sharp_v st) fl CHR ''v'' =
     Inr (''['' @ space_separated
                   (map (\<lambda>f. path_Base (Frame_file FuncForPC f) @ '':'' @
                              strconv_Itoa (Frame_line FuncForPC f)) st) @ '']'')"
  using assms
  by (simp add: Sprint_def StackTrace_Format_def formatSlice_v Flag_def WriteString_def)

theorem StackTrace_Format_compact_witness:
  "CHR ''+'' \<notin> set [] \<and> CHR ''#'' \<notin> set [] \<and>
   Sprint (StackTrace_Format example_symtab (\<lambda>s st. Inr s) [Frame 1, Frame 2]) [] CHR ''v'' =
     Inr ''[a.go:1 b.go:2]''"
  using StackTrace_Format_compact [of "[]" example_symtab "\<lambda>s st. Inr s" "[Frame 1, Frame 2]"]
  by (simp add: example_symtab_Frame_1 example_symtab_Frame_2 path_Base_examples
      strconv_Itoa_examples)

text \<open>
  C9. Printed with \<^verbatim>\<open>%+v\<close>, a StackTrace is, for each frame in order, a newline and
  the frame printed with \<^verbatim>\<open>%+v\<close>; such a frame is the function name as the symbol
  table gives it (\<open>Frame_name\<close>, not passed through \<open>funcname\<close>), a newline and a tab,
  the full file path, a colon and the line. An unresolved frame prints as
  \<^verbatim>\<open>unknown\<close>, newline, tab, \<^verbatim>\<open>unknown:0\<close>. Printing does not fail.
\<close>

theorem Format_verbose:
  assumes "CHR ''+'' \<in> set fl"
  shows "Sprint (StackTrace_Format FuncForPC Fprintf_sharp_v st) fl CHR ''v'' =
           Inr (concat (map (\<lambda>f. [NL] @ Frame_name FuncForPC f @ [NL, TAB] @
                                  Frame_file FuncForPC f @ '':'' @
                                  strconv_Itoa (Frame_line FuncForPC f)) st)) \<and>
         Sprint (Frame_Format FuncForPC f) fl CHR ''v'' =
           Inr (Frame_name FuncForPC f @ [NL, TAB] @ Frame_file FuncForPC f @ '':'' @
                strconv_Itoa (Frame_line FuncForPC f)) \<and>
         (FuncForPC (Frame_pc f) = None \<longrightarrow>
            Sprint (Frame_Format FuncForPC f) fl CHR ''v'' =
              Inr (''unknown'' @ [NL, TAB] @ ''unknown:0''))"
proof -
  let ?s = "\<lparr>written = [], flags = fl\<rparr>"
  have plus: "Flag ?s CHR ''+''"
    using assms by (simp add: Flag_def)
  have "StackTrace_Format FuncForPC Fprintf_sharp_v st ?s CHR ''v'' =
      Inr (WriteString ?s
        (concat (map (\<lambda>f. [NL] @ Frame_name FuncForPC f @ [NL, TAB] @
                            Frame_file FuncForPC f @ '':'' @
                            strconv_Itoa (Frame_line FuncForPC f)) st)))"
    using plus by (simp add: StackTrace_Format_def format_plus_loop_v)
  then have trace: "Sprint (StackTrace_Format FuncForPC Fprintf_sharp_v st) fl CHR ''v'' =
      Inr (concat (map (\<lambda>f. [NL] @ Frame_name FuncForPC f @ [NL, TAB] @
                            Frame_file FuncForPC f @ '':'' @
                            strconv_Itoa (Frame_line FuncForPC f)) st))"
    by (simp add: Sprint_def WriteString_def)
  have frame: "Sprint (Frame_Format FuncForPC f) fl CHR ''v'' =
      Inr (Frame_name FuncForPC f @ [NL, TAB] @ Frame_file FuncForPC f @ '':'' @
           strconv_Itoa (Frame_line FuncForPC f))"
    using plus by (simp add: Sprint_def Frame_Format_v WriteString_def)
  have "FuncForPC (Frame_pc f) = None \<longrightarrow>
      Sprint (Frame_Format FuncForPC f) fl CHR ''v'' =
        Inr (''unknown'' @ [NL, TAB] @ ''unknown:0'')"
    by (simp add: frame Frame_name_def Frame_file_def Frame_line_def strconv_Itoa_examples)
  with trace frame show ?thesis
    by blast
qed

theorem Format_verbose_witness:
  "CHR ''+'' \<in> set ''+'' \<and>
   Sprint (StackTrace_Format example_symtab (\<lambda>s st. Inr s) [Frame 1, Frame 0]) ''+'' CHR ''v'' =
     Inr ([NL] @ ''example.com/m/pkg.A'' @ [NL, TAB] @ ''/src/pkg/a.go:1'' @
          [NL] @ ''unknown'' @ [NL, TAB] @ ''unknown:0'') \<and>
   example_symtab (Frame_pc (Frame 0)) = None \<and>
   Sprint (Frame_Format example_symtab (Frame 0)) ''+'' CHR ''v'' =
     Inr (''unknown'' @ [NL, TAB] @ ''unknown:0'')"
proof -
  have h: "example_symtab (Frame_pc (Frame 0)) = None"
    by (simp add: example_symtab_def Frame_pc_def)
  have u: "Frame_name example_symtab (Frame 0) = ''unknown''"
    "Frame_file example_symtab (Frame 0) = ''unknown''"
    "Frame_line example_symtab (Frame 0) = 0"
    using h by (simp_all add: Frame_name_def Frame_file_def Frame_line_def)
  show ?thesis
    using h
      Format_verbose [of "''+''" example_symtab "\<lambda>s st. Inr s" "[Frame 1, Frame 0]" "Frame 0"]
    by (simp add: example_symtab_Frame_1 u strconv_Itoa_examples)
qed

text \<open>
  The frame of \<^verbatim>\<open>example.com/m/pkg.A\<close> printed with \<^verbatim>\<open>%+v\<close> starts with that full name,
  not with the normalized name \<^verbatim>\<open>A\<close> that \<open>funcname\<close> gives.
\<close>

theorem Format_verbose_counterexample:
  "funcname (Frame_name example_symtab (Frame 1)) = Inr ''A'' \<and>
   Sprint (Frame_Format example_symtab (Frame 1)) ''+'' CHR ''v'' =
     Inr (''example.com/m/pkg.A'' @ [NL, TAB] @ ''/src/pkg/a.go:1'') \<and>
   Sprint (Frame_Format example_symtab (Frame 1)) ''+'' CHR ''v'' \<noteq>
     Inr (''A'' @ [NL, TAB] @ ''/src/pkg/a.go:1'')"
  by (simp add: Sprint_def Frame_Format_v Flag_def WriteString_def example_symtab_Frame_1
      strconv_Itoa_examples funcname_def go_slice_from_def)

subsection \<open>Resolution and MarshalText\<close>

text \<open>
  C6. When the symbol table has no function for the program counter of a Frame, its file
  is \<^verbatim>\<open>unknown\<close>, its line is 0 and its name is \<^verbatim>\<open>unknown\<close>. The three accessors are
  total: none of them can fail.
\<close>

theorem Frame_unresolved:
  assumes "FuncForPC (Frame_pc f) = None"
  shows "Frame_file FuncForPC f = ''unknown'' \<and> Frame_line FuncForPC f = 0 \<and>
         Frame_name FuncForPC f = ''unknown''"
  using assms by (simp add: Frame_file_def Frame_line_def Frame_name_def)

theorem Frame_unresolved_witness:
  "example_symtab (Frame_pc (Frame 0)) = None \<and>
   Frame_file example_symtab (Frame 0) = ''unknown'' \<and>
   Frame_line example_symtab (Frame 0) = 0 \<and>
   Frame_name example_symtab (Frame 0) = ''unknown''"
proof -
  have h: "example_symtab (Frame_pc (Frame 0)) = None"
    by (simp add: example_symtab_def Frame_pc_def)
  show ?thesis
    using h Frame_unresolved [of example_symtab "Frame 0"] by simp
qed

text \<open>
  C7. \<open>MarshalText\<close> always returns a nil error. Its text is \<^verbatim>\<open>unknown\<close> when the
  program counter does not resolve, and also when it resolves to a function whose name
  is the text \<^verbatim>\<open>unknown\<close>: the function tests the name, not the lookup. In every other
  case the text is the function name, a space, the full file path, a colon and the line.
\<close>

theorem MarshalText_rendering:
  "MarshalText FuncForPC f =
     (case FuncForPC (Frame_pc f) of
        None \<Rightarrow> (''unknown'', None)
      | Some fn \<Rightarrow>
          (if Name fn = ''unknown'' then (''unknown'', None)
           else (Name fn @ '' '' @ fst (FileLine fn (Frame_pc f)) @ '':'' @
                 strconv_Itoa (snd (FileLine fn (Frame_pc f))), None)))"
  by (simp add: MarshalText_def Frame_name_def Frame_file_def Frame_line_def Sprintf_s_s_d_def
      Let_def split: option.split)

text \<open>
  A symbol table that resolves the frame to a function named \<^verbatim>\<open>unknown\<close> in
  \<^verbatim>\<open>/src/asm.s\<close>, line 7: the text is \<^verbatim>\<open>unknown\<close>, not \<^verbatim>\<open>unknown /src/asm.s:7\<close>.
\<close>

theorem MarshalText_counterexample:
  "unknown_symtab (Frame_pc (Frame 1)) =
     Some \<lparr>Name = ''unknown'', FileLine = (\<lambda>_. (''/src/asm.s'', 7))\<rparr> \<and>
   MarshalText unknown_symtab (Frame 1) = (''unknown'', None) \<and>
   MarshalText unknown_symtab (Frame 1) \<noteq> (''unknown /src/asm.s:7'', None)"
  by (simp add: MarshalText_def unknown_symtab_def Frame_name_def)

lemma MarshalText_example:
  "MarshalText example_symtab (Frame 2) = (''example.com/m/pkg.(*T).B /src/pkg/b.go:2'', None)"
  by (simp add: MarshalText_def Frame_name_def Frame_file_def Frame_line_def Sprintf_s_s_d_def
      example_symtab_def Frame_pc_def strconv_Itoa_examples)

subsection \<open>callers\<close>

text \<open>
  Whatever the skip, \<open>callers\<close> does not panic and returns at most 32 program counters:
  those that follow the frames skipped by \<^verbatim>\<open>skip+3\<close>, computed in 64 bits.
\<close>

lemma callers_eq:
  "callers chain skip = Inr (take depth (drop (nat (sint (skip + 3))) chain))"
proof -
  define live where "live = drop (nat (sint (skip + 3))) chain"
  define n where "n = min depth (length live)"
  have "go_slice (take n live @ drop n (replicate depth (0 :: uintptr))) 0 (int n) =
      Inr (take n live)"
    by (simp add: go_slice_def n_def)
  moreover have "take n live = take depth live"
    by (simp add: n_def min_def)
  ultimately show ?thesis
    by (simp add: callers_def runtime_Callers_def Let_def live_def [symmetric] n_def [symmetric])
qed

lemma callers_length: "\<exists>st. callers chain skip = Inr st \<and> length st \<le> 32"
  by (simp add: callers_eq depth_def)

lemma sint_add_3:
  fixes skip :: go_int
  assumes "0 \<le> sint skip" and "sint skip \<le> 2 ^ 63 - 4"
  shows "sint (skip + 3) = sint skip + 3"
proof -
  have "sint (skip + 3) = signed_take_bit 63 (sint skip + 3)"
    by (simp add: sint_word_ariths)
  also have "\<dots> = sint skip + 3"
    using assms by (intro signed_take_bit_int_eq_self) auto
  finally show ?thesis .
qed

text \<open>
  C10. For a skip between 0 and \<open>2 ^ 63 - 4\<close>, so that \<^verbatim>\<open>skip+3\<close> does not wrap around,
  \<open>callers\<close> skips the innermost \<open>skip + 3\<close> frames of the call chain and returns the
  next 32 of them, or all that remain if there are fewer: at most 32 program counters,
  and never a panic, however deep the chain is.
\<close>

theorem callers_captures:
  assumes "0 \<le> sint skip" and "sint skip \<le> 2 ^ 63 - 4"
  shows "callers chain skip = Inr (take 32 (drop (nat (sint skip) + 3) chain)) \<and>
         (\<exists>st. callers chain skip = Inr st \<and> length st \<le> 32)"
proof -
  have "nat (sint (skip + 3)) = nat (sint skip) + 3"
    using assms by (simp add: sint_add_3 nat_add_distrib)
  then show ?thesis
    by (simp add: callers_eq depth_def)
qed

theorem callers_captures_witness:
  "0 \<le> sint (1 :: go_int) \<and> sint (1 :: go_int) \<le> 2 ^ 63 - 4 \<and>
   callers [10, 11, 12, 13, 14, 15] 1 = Inr [14, 15]"
  using callers_captures [of 1 "[10, 11, 12, 13, 14, 15]"]
  by simp

text \<open>
  A chain of 40 frames and no extra skip: frames 3 to 34 are kept, the 32 innermost after
  the baseline.
\<close>

lemma callers_truncates:
  "callers (map of_nat [0..<40]) 0 = Inr (map of_nat [3..<35])"
  by (simp add: callers_eq depth_def take_map drop_map)

text \<open>
  At the largest skip, \<^verbatim>\<open>skip+3\<close> wraps around to a negative number, nothing is skipped,
  and the frames of \<^verbatim>\<open>runtime.Callers\<close> and \<open>callers\<close> themselves are returned.
\<close>

theorem callers_counterexample:
  "0 \<le> sint (0x7FFFFFFFFFFFFFFF :: go_int) \<and>
   sint ((0x7FFFFFFFFFFFFFFF :: go_int) + 3) = - 9223372036854775806 \<and>
   callers [10, 11, 12, 13, 14, 15] 0x7FFFFFFFFFFFFFFF = Inr [10, 11, 12, 13, 14, 15] \<and>
   callers [10, 11, 12, 13, 14, 15] 0x7FFFFFFFFFFFFFFF \<noteq>
     Inr (take 32 (drop (nat (sint (0x7FFFFFFFFFFFFFFF :: go_int)) + 3) [10, 11, 12, 13, 14, 15]))"
  by (simp add: callers_eq depth_def)

end
